theory Spec2Isabelle
  imports Complex_Main "HOL-Library.Char_ord" "HOL-Library.List_Lexorder" "HOL-Library.Multiset"
    "HOL-Library.Word"
begin

section \<open>Flight records as parsed from JSON\<close>

text \<open>
  A flight record is the Python dict that \<^verbatim>\<open>json.load\<close> returns for one JSON object.
  Each of the five named keys is absent from the dict (\<open>Missing\<close>), present with the
  value \<^verbatim>\<open>None\<close> (\<open>Null\<close>), or present with a value of the type the input format gives
  it: cities and dates are strings, durations are integers, and passenger counts are
  integers of the 64-bit signed range, in which the table below keeps and adds them.
  The dict can have other keys; \<open>extra\<close> lists them, each with whether its value is
  \<^verbatim>\<open>None\<close>, which is all the program looks at.
\<close>

datatype 'a field = Missing | Null | Val 'a

record flight_record =
  date :: "string field"
  origin_city :: "string field"
  destination_city :: "string field"
  flight_duration_secs :: "int field"
  num_passengers :: "64 word field"
  extra :: "(string \<times> bool) list"

text \<open>
  \<^verbatim>\<open>value is None\<close> for the values of all the keys that are in the dict: an absent key
  has no value in \<^verbatim>\<open>record.values()\<close>.
\<close>

fun is_none_values :: "'a field \<Rightarrow> bool list" where
  "is_none_values Missing = []"
| "is_none_values Null = [True]"
| "is_none_values (Val v) = [False]"

definition record_values :: "flight_record \<Rightarrow> bool list" where
  "record_values r =
     is_none_values (date r) @ is_none_values (origin_city r) @
     is_none_values (destination_city r) @ is_none_values (flight_duration_secs r) @
     is_none_values (num_passengers r) @ map snd (extra r)"

text \<open>\<^verbatim>\<open>any(value is None for value in record.values())\<close>\<close>

definition any_none :: "flight_record \<Rightarrow> bool" where
  "any_none r = list_ex (\<lambda>b. b) (record_values r)"

section \<open>The file scan of \<^verbatim>\<open>process_files\<close>\<close>

text \<open>
  What \<^verbatim>\<open>json.load\<close> makes of a file: a list of dicts for a JSON array of objects; an
  exception for text that is not JSON; a dict or a string, of which only the number of
  members or characters matters, for a JSON object or a JSON string; a number, a truth
  value or \<^verbatim>\<open>None\<close> for the other JSON values. The corpus is what
  \<^verbatim>\<open>os.walk(dir_name)\<close> finds: \<open>None\<close> when the directory does not exist, otherwise the
  files in the order they are visited.
\<close>

datatype file_content = Records "flight_record list" | Not_json | Sized nat | Unsized

type_synonym corpus = "file_content list option"

datatype exn =
  OSError | FileNotFoundError | JSONDecodeError | TypeError | AttributeError |
  KeyError | ValueError | IndexError

text \<open>\<^verbatim>\<open>os.walk\<close> reports no error for a directory that does not exist: it yields nothing.\<close>

definition os_walk :: "corpus \<Rightarrow> file_content list" where
  "os_walk fs = (case fs of None \<Rightarrow> [] | Some files \<Rightarrow> files)"

record scan_state =
  total_records :: nat
  dirty_records :: nat
  all_records :: "flight_record list"

text \<open>
  The inner loop over the records of one file: a record with a \<^verbatim>\<open>None\<close> value adds one
  to \<^verbatim>\<open>dirty_records\<close>; the \<^verbatim>\<open>continue\<close> that follows is the last statement of the loop
  body.
\<close>

fun count_dirty :: "flight_record list \<Rightarrow> nat \<Rightarrow> nat" where
  "count_dirty [] d = d"
| "count_dirty (r # rs) d = (if any_none r then count_dirty rs (d + 1) else count_dirty rs d)"

text \<open>
  The loop over the files. \<^verbatim>\<open>all_records.extend(records)\<close> stands after the inner loop,
  at the indentation of the \<^verbatim>\<open>for\<close>, so it appends every record of the file.
  \<^verbatim>\<open>len\<close> raises \<^verbatim>\<open>TypeError\<close> on a number, a truth value and \<^verbatim>\<open>None\<close>. The elements
  of a dict or a string in the inner loop are strings, which have no \<^verbatim>\<open>values\<close>:
  the first one raises \<^verbatim>\<open>AttributeError\<close>, and an empty dict or string passes as a file
  without records.
\<close>

fun scan_files :: "file_content list \<Rightarrow> scan_state \<Rightarrow> exn + scan_state" where
  "scan_files [] s = Inr s"
| "scan_files (Not_json # fs) s = Inl JSONDecodeError"
| "scan_files (Unsized # fs) s = Inl TypeError"
| "scan_files (Sized n # fs) s =
     (if 0 < n then Inl AttributeError
      else scan_files fs (s\<lparr>total_records := total_records s + n\<rparr>))"
| "scan_files (Records records # fs) s =
     scan_files fs
       \<lparr>total_records = total_records s + length records,
        dirty_records = count_dirty records (dirty_records s),
        all_records = all_records s @ records\<rparr>"

definition init_state :: scan_state where
  "init_state = \<lparr>total_records = 0, dirty_records = 0, all_records = []\<rparr>"

section \<open>The table of all records and the \<^verbatim>\<open>pandas\<close> operations used on it\<close>

text \<open>
  \<^verbatim>\<open>pd.DataFrame(all_records)\<close> has one row for each dict and one column for each key that
  occurs in some dict; the cell of a key that a dict lacks is NaN, which every operation
  below treats as it treats \<^verbatim>\<open>None\<close>. A row is therefore kept as the record it came from,
  and a cell is null when its field is \<open>Missing\<close> or \<open>Null\<close>. Integers stay exact and
  the floating-point results (mean, percentile) are the exact rationals; a numeric
  column is numeric also when all its cells are null.
\<close>

type_synonym dataframe = "flight_record list"

fun present :: "'a field \<Rightarrow> bool" where
  "present Missing = False"
| "present Null = True"
| "present (Val v) = True"

text \<open>Selecting a column that no dict has a key for raises \<^verbatim>\<open>KeyError\<close>.\<close>

definition has_column :: "(flight_record \<Rightarrow> 'a field) \<Rightarrow> dataframe \<Rightarrow> bool" where
  "has_column col df = list_ex (\<lambda>r. present (col r)) df"

fun dropna :: "'a field list \<Rightarrow> 'a list" where
  "dropna [] = []"
| "dropna (Val v # xs) = v # dropna xs"
| "dropna (Missing # xs) = dropna xs"
| "dropna (Null # xs) = dropna xs"

text \<open>The distinct values of a list in the order of their first appearance.\<close>

definition unique :: "'a list \<Rightarrow> 'a list" where
  "unique xs = rev (remdups (rev xs))"

text \<open>
  \<^verbatim>\<open>Series.value_counts()\<close>: the count of each non-null value, largest count first, values
  of equal count in the order of their first appearance. \<^verbatim>\<open>nlargest(n)\<close> keeps the \<open>n\<close>
  largest counts, the first ones among equal counts (\<^verbatim>\<open>keep='first'\<close>). Neither looks
  at the values themselves to order equal counts: their place in the column decides.
\<close>

definition sort_desc :: "('k \<times> nat) list \<Rightarrow> ('k \<times> nat) list" where
  "sort_desc s = sort_key (\<lambda>p. - int (snd p)) s"

definition value_counts :: "'k field list \<Rightarrow> ('k \<times> nat) list" where
  "value_counts col =
     (let xs = dropna col in sort_desc (map (\<lambda>c. (c, count_list xs c)) (unique xs)))"

definition nlargest :: "nat \<Rightarrow> ('k \<times> nat) list \<Rightarrow> ('k \<times> nat) list" where
  "nlargest n s = take n (sort_desc s)"

text \<open>\<^verbatim>\<open>Series.isin(values)\<close>: a null cell is in no list.\<close>

fun isin :: "'k field \<Rightarrow> 'k list \<Rightarrow> bool" where
  "isin (Val c) cs = (c \<in> set cs)"
| "isin Missing cs = False"
| "isin Null cs = False"

text \<open>
  \<^verbatim>\<open>df.groupby(key)\<close>: one group for each non-null key, the groups in ascending order of
  the key (\<^verbatim>\<open>sort=True\<close>), each group holding its rows in their order in \<open>df\<close>.
\<close>

definition groupby :: "(flight_record \<Rightarrow> 'k::linorder field) \<Rightarrow> dataframe \<Rightarrow> ('k \<times> dataframe) list" where
  "groupby key df =
     map (\<lambda>k. (k, filter (\<lambda>r. key r = Val k) df)) (sort (remdups (dropna (map key df))))"

text \<open>\<^verbatim>\<open>mean\<close> skips null cells and is NaN (\<open>None\<close>) for a group without a value.\<close>

definition mean :: "int field list \<Rightarrow> rat option" where
  "mean x =
     (let v = dropna x
      in if v = [] then None else Some (of_int (sum_list v) / of_nat (length v)))"

text \<open>
  \<^verbatim>\<open>np.percentile(a, q)\<close> with the default linear method: on the sorted array, the
  virtual index \<open>q / 100 * (n - 1)\<close>, its integer part and the following index (not
  beyond the last one), and the linear interpolation between the two entries with the
  fractional part as weight. It is NaN for an empty array, and \<open>q\<close> beyond 100 is
  rejected.
\<close>

definition lerp :: "rat \<Rightarrow> rat \<Rightarrow> rat \<Rightarrow> rat" where
  "lerp a b t = a + (b - a) * t"

definition np_percentile :: "int list \<Rightarrow> nat \<Rightarrow> rat option" where
  "np_percentile a q =
     (if a = [] \<or> 100 < q then None
      else
        let arr = sort a;
            n = length arr;
            virtual_index = of_nat q / 100 * of_nat (n - 1);
            previous_index = nat \<lfloor>virtual_index :: rat\<rfloor>;
            next_index = min (previous_index + 1) (n - 1);
            gamma = virtual_index - of_nat previous_index
        in Some (lerp (of_int (arr ! previous_index)) (of_int (arr ! next_index)) gamma))"

text \<open>\<^verbatim>\<open>lambda x: np.percentile(x.dropna(), 95) if len(x.dropna()) > 0 else 0\<close>\<close>

definition p95 :: "int field list \<Rightarrow> rat option" where
  "p95 x = (if 0 < length (dropna x) then np_percentile (dropna x) 95 else Some 0)"

text \<open>
  The column \<^verbatim>\<open>num_passengers\<close> of the table has the type \<^verbatim>\<open>int64\<close> when none of its
  cells is null, and \<^verbatim>\<open>float64\<close> otherwise. A sum of \<^verbatim>\<open>int64\<close> cells wraps around in
  64-bit two's complement; a sum of \<^verbatim>\<open>float64\<close> cells does not wrap (it is kept exact
  here, as the other floating-point results are).
\<close>

fun has_value :: "'a field \<Rightarrow> bool" where
  "has_value Missing = False"
| "has_value Null = False"
| "has_value (Val v) = True"

definition int64_column :: "dataframe \<Rightarrow> bool" where
  "int64_column df = list_all (\<lambda>r. has_value (num_passengers r)) df"

definition sum_cells :: "bool \<Rightarrow> 64 word list \<Rightarrow> int" where
  "sum_cells int64 v = (if int64 then sint (sum_list v) else sum_list (map sint v))"

text \<open>\<^verbatim>\<open>groupby(key)['num_passengers'].sum()\<close>: the sum of the non-null cells of each group.\<close>

definition sum_passengers :: "(flight_record \<Rightarrow> string field) \<Rightarrow> dataframe \<Rightarrow> (string \<times> int) list" where
  "sum_passengers key df =
     map (\<lambda>(c, g). (c, sum_cells (int64_column df) (dropna (map num_passengers g))))
       (groupby key df)"

text \<open>
  \<^verbatim>\<open>idxmax\<close>: the row of the first occurrence of the maximum; it raises \<^verbatim>\<open>ValueError\<close>
  (\<open>None\<close>) on an empty table.
\<close>

fun idxmax :: "('k \<times> int) list \<Rightarrow> 'k option" where
  "idxmax [] = None"
| "idxmax (p # ps) = Some (fst (foldl (\<lambda>best q. if snd best < snd q then q else best) p ps))"

section \<open>The aggregates of \<^verbatim>\<open>process_files\<close>\<close>

definition top_25_cities :: "dataframe \<Rightarrow> string list" where
  "top_25_cities df = map fst (nlargest 25 (value_counts (map destination_city df)))"

definition df_top_25 :: "dataframe \<Rightarrow> dataframe" where
  "df_top_25 df = filter (\<lambda>r. isin (destination_city r) (top_25_cities df)) df"

definition avg_p95 :: "dataframe \<Rightarrow> (string \<times> rat option \<times> rat option) list" where
  "avg_p95 df =
     map (\<lambda>(c, g). (c, mean (map flight_duration_secs g), p95 (map flight_duration_secs g)))
       (groupby destination_city (df_top_25 df))"

definition df_arrived :: "dataframe \<Rightarrow> (string \<times> int) list" where
  "df_arrived df = sum_passengers destination_city df"

definition df_left :: "dataframe \<Rightarrow> (string \<times> int) list" where
  "df_left df = sum_passengers origin_city df"

record report =
  report_total_records :: nat
  report_dirty_records :: nat
  report_avg_p95 :: "(string \<times> rat option \<times> rat option) list"
  report_max_arrived :: "string \<times> int"
  report_max_left :: "string \<times> int"

text \<open>
  The statements after the scan, in the order of the source. The wall-clock run duration
  that the report also prints is not part of the model.
\<close>

definition analyse :: "scan_state \<Rightarrow> exn + report" where
  "analyse s =
     (let df = all_records s in
      if has_column destination_city df then
        if has_column flight_duration_secs df then
          if has_column num_passengers df then
            (case idxmax (df_arrived df) of
               None \<Rightarrow> Inl ValueError
             | Some max_arrived \<Rightarrow>
                 if has_column origin_city df then
                   (case idxmax (df_left df) of
                      None \<Rightarrow> Inl ValueError
                    | Some max_left \<Rightarrow>
                        (case (map_of (df_arrived df) max_arrived, map_of (df_left df) max_left) of
                           (Some n_arrived, Some n_left) \<Rightarrow>
                             Inr \<lparr>report_total_records = total_records s,
                                  report_dirty_records = dirty_records s,
                                  report_avg_p95 = avg_p95 df,
                                  report_max_arrived = (max_arrived, n_arrived),
                                  report_max_left = (max_left, n_left)\<rparr>
                         | _ \<Rightarrow> Inl IndexError))
                 else Inl KeyError)
          else Inl KeyError
        else Inl KeyError
      else Inl KeyError)"

definition process_files :: "corpus \<Rightarrow> exn + report" where
  "process_files fs =
     (case scan_files (os_walk fs) init_state of
        Inl e \<Rightarrow> Inl e
      | Inr s \<Rightarrow> analyse s)"

section \<open>\<^verbatim>\<open>main\<close>\<close>

text \<open>
  What \<^verbatim>\<open>main\<close> prints besides the progress lines of the generator, and the exit status
  of the script. \<^verbatim>\<open>generate_files\<close> either raises \<^verbatim>\<open>OSError\<close> or leaves a corpus; its
  outcome is the argument. The first handler prints \<^verbatim>\<open>Error : \<close> and the exception, the
  second one the fixed line \<^verbatim>\<open>Exception occured , can not proceed further\<close>; both
  return, so the script ends with status 0 on every path. \<^verbatim>\<open>FileNotFoundError\<close> is a
  subclass of \<^verbatim>\<open>OSError\<close>; every other exception of the model reaches the second handler.
\<close>

datatype printed = Report report | Error_line exn | Exception_line

fun handler :: "exn \<Rightarrow> printed \<times> nat" where
  "handler OSError = (Error_line OSError, 0)"
| "handler FileNotFoundError = (Error_line FileNotFoundError, 0)"
| "handler e = (Exception_line, 0)"

definition main :: "exn + corpus \<Rightarrow> printed \<times> nat" where
  "main generated =
     (case generated of
        Inl e \<Rightarrow> handler e
      | Inr fs \<Rightarrow>
          (case process_files fs of
             Inl e \<Rightarrow> handler e
           | Inr r \<Rightarrow> (Report r, 0)))"

section \<open>The generator of one record\<close>

text \<open>
  \<^verbatim>\<open>generate_flight_record\<close> draws two cities, a duration, a passenger count, a uniform
  number in \<open>[0, 1)\<close> and, when that number is below \<^verbatim>\<open>prob_null\<close>, one of the keys of
  the record. The draws are the arguments of the model.
\<close>

datatype key = Date | Origin_city | Destination_city | Flight_duration_secs | Num_passengers

definition prob_null :: rat where
  "prob_null = 1 / 1000"

text \<open>\<^verbatim>\<open>record[null_field] = None\<close>\<close>

fun set_none :: "key \<Rightarrow> flight_record \<Rightarrow> flight_record" where
  "set_none Date r = r\<lparr>date := Null\<rparr>"
| "set_none Origin_city r = r\<lparr>origin_city := Null\<rparr>"
| "set_none Destination_city r = r\<lparr>destination_city := Null\<rparr>"
| "set_none Flight_duration_secs r = r\<lparr>flight_duration_secs := Null\<rparr>"
| "set_none Num_passengers r = r\<lparr>num_passengers := Null\<rparr>"

definition generate_flight_record ::
  "string \<Rightarrow> string \<Rightarrow> string \<Rightarrow> int \<Rightarrow> int \<Rightarrow> rat \<Rightarrow> key \<Rightarrow> flight_record" where
  "generate_flight_record today origin destination duration passengers u null_field =
     (let record =
        \<lparr>date = Val today, origin_city = Val origin, destination_city = Val destination,
         flight_duration_secs = Val duration, num_passengers = Val (word_of_int passengers),
         extra = []\<rparr>
      in if u < prob_null then set_none null_field record else record)"

section \<open>Notions used to state the properties\<close>

text \<open>
  The exception that reading a file raises, if any, and the first one raised along a
  list of files; the records of a file, and of a list of files.
\<close>

fun raises :: "file_content \<Rightarrow> exn option" where
  "raises (Records records) = None"
| "raises Not_json = Some JSONDecodeError"
| "raises (Sized n) = (if 0 < n then Some AttributeError else None)"
| "raises Unsized = Some TypeError"

fun first_raised :: "file_content list \<Rightarrow> exn option" where
  "first_raised [] = None"
| "first_raised (f # fs) = (case raises f of Some e \<Rightarrow> Some e | None \<Rightarrow> first_raised fs)"

fun records_of :: "file_content \<Rightarrow> flight_record list" where
  "records_of (Records records) = records"
| "records_of Not_json = []"
| "records_of (Sized n) = []"
| "records_of Unsized = []"

definition loaded :: "file_content list \<Rightarrow> flight_record list" where
  "loaded files = concat (map records_of files)"

text \<open>
  For a city and the table of the program: how many rows name it as destination, the
  duration cells of its group, which are those of every loaded row that names it as
  destination, and the sum that the table of passenger sums holds for it.
\<close>

definition destinations :: "dataframe \<Rightarrow> string list" where
  "destinations df = dropna (map destination_city df)"

definition frequency :: "dataframe \<Rightarrow> string \<Rightarrow> nat" where
  "frequency df c = count_list (destinations df) c"

definition group_durations :: "dataframe \<Rightarrow> string \<Rightarrow> int field list" where
  "group_durations df c =
     map flight_duration_secs (filter (\<lambda>r. destination_city r = Val c) df)"

definition passengers :: "(flight_record \<Rightarrow> string field) \<Rightarrow> dataframe \<Rightarrow> string \<Rightarrow> int" where
  "passengers key df c =
     sum_cells (int64_column df) (dropna (map num_passengers (filter (\<lambda>r. key r = Val c) df)))"

text \<open>
  In the words of the specification: a record is clean when all five fields are present
  and non-null, whatever other keys it has, and the duration collection of a city holds
  the durations of the clean records that name it as destination. A record is plain
  when it has the five keys and no null under another key.
\<close>

definition clean :: "flight_record \<Rightarrow> bool" where
  "clean r \<longleftrightarrow>
     has_value (date r) \<and> has_value (origin_city r) \<and> has_value (destination_city r) \<and>
     has_value (flight_duration_secs r) \<and> has_value (num_passengers r)"

definition clean_durations :: "dataframe \<Rightarrow> string \<Rightarrow> int list" where
  "clean_durations df c =
     dropna (map flight_duration_secs
       (filter (\<lambda>r. clean r \<and> destination_city r = Val c) df))"

definition plain :: "flight_record \<Rightarrow> bool" where
  "plain r \<longleftrightarrow>
     present (date r) \<and> present (origin_city r) \<and> present (destination_city r) \<and>
     present (flight_duration_secs r) \<and> present (num_passengers r) \<and>
     list_all (\<lambda>v. \<not> snd v) (extra r)"

text \<open>
  The 95th percentile in the words of the specification: on the sorted durations, the
  rank \<open>0.95 * (n - 1)\<close> and the linear interpolation between the entries at the floor
  and at the ceiling of the rank; 0 for a city without a duration.
\<close>

definition rank95 :: "nat \<Rightarrow> rat" where
  "rank95 n = 95 / 100 * of_nat (n - 1)"

definition interpolated_p95 :: "int list \<Rightarrow> rat" where
  "interpolated_p95 ds =
     (if ds = [] then 0
      else
        let s = sort ds;
            rank = rank95 (length s);
            lo = s ! nat \<lfloor>rank\<rfloor>;
            hi = s ! nat \<lceil>rank\<rceil>
        in of_int lo + (rank - of_int \<lfloor>rank\<rfloor>) * of_int (hi - lo))"

text \<open>
  Sample data: a record without a null for a flight to a given city, and twenty-six city
  names.
\<close>

definition flight_to :: "string \<Rightarrow> flight_record" where
  "flight_to c =
     \<lparr>date = Val ''2024-11-01'', origin_city = Val ''hub'', destination_city = Val c,
      flight_duration_secs = Val 3600, num_passengers = Val 100, extra = []\<rparr>"

definition a_to_y :: "string list" where
  "a_to_y = [''a'', ''b'', ''c'', ''d'', ''e'', ''f'', ''g'', ''h'', ''i'', ''j'', ''k'', ''l'', ''m'',
     ''n'', ''o'', ''p'', ''q'', ''r'', ''s'', ''t'', ''u'', ''v'', ''w'', ''x'', ''y'']"

text \<open>
  A table with 27 destinations: two flights to \<open>z\<close> and to each of \<open>a\<close>, ..., \<open>y\<close>, and
  one flight to \<open>zz\<close>. Two files with 26 destinations between them, \<open>z\<close> only in the
  first one.
\<close>

definition flights_27 :: dataframe where
  "flights_27 = map flight_to (''z'' # ''z'' # a_to_y @ a_to_y @ [''zz''])"

definition file_a_to_z :: file_content where
  "file_a_to_z = Records (map flight_to (a_to_y @ [''z'']))"

definition file_a_to_y :: file_content where
  "file_a_to_y = Records (map flight_to a_to_y)"

section \<open>The scan in closed form\<close>

lemma count_dirty_eq: "count_dirty rs d = d + length (filter any_none rs)"
  by (induction rs arbitrary: d) simp_all

lemma scan_files_eq:
  "scan_files files s =
     (case first_raised files of
        Some e \<Rightarrow> Inl e
      | None \<Rightarrow>
          Inr \<lparr>total_records = total_records s + length (loaded files),
               dirty_records = dirty_records s + length (filter any_none (loaded files)),
               all_records = all_records s @ loaded files\<rparr>)"
proof (induction files s rule: scan_files.induct)
  case (1 s)
  then show ?case by (simp add: loaded_def)
next
  case (2 fs s)
  then show ?case by simp
next
  case (3 fs s)
  then show ?case by simp
next
  case (4 n fs s)
  then show ?case by (cases "0 < n") (simp_all add: loaded_def split: option.split)
next
  case (5 records fs s)
  then show ?case by (simp add: loaded_def count_dirty_eq split: option.split)
qed

lemma process_files_eq:
  "process_files fs =
     (case first_raised (os_walk fs) of
        Some e \<Rightarrow> Inl e
      | None \<Rightarrow>
          analyse \<lparr>total_records = length (loaded (os_walk fs)),
               dirty_records = length (filter any_none (loaded (os_walk fs))),
               all_records = loaded (os_walk fs)\<rparr>)"
  by (simp add: process_files_def scan_files_eq init_state_def split: option.split)

lemma first_raised_None: "first_raised files = None \<longleftrightarrow> (\<forall>f \<in> set files. raises f = None)"
  by (induction files) (auto split: option.splits)

lemma first_raised_handler: "first_raised files = Some e \<Longrightarrow> handler e = (Exception_line, 0)"
proof (induction files)
  case Nil
  then show ?case by simp
next
  case (Cons f fs)
  then show ?case by (cases f) (auto split: option.splits if_splits)
qed

lemma analyse_counts:
  "analyse s = Inr rep \<Longrightarrow>
     report_total_records rep = total_records s \<and> report_dirty_records rep = dirty_records s"
  by (auto simp: analyse_def Let_def split: if_splits option.splits)

lemma plain_not_dirty_iff_clean:
  assumes "plain r"
  shows "\<not> any_none r \<longleftrightarrow> clean r"
proof -
  have five: "list_ex (\<lambda>b. b) (is_none_values f) \<longleftrightarrow> \<not> has_value f"
    if "present f" for f :: "'a field"
    using that by (cases f) simp_all
  have "\<not> list_ex (\<lambda>b. b) (map snd (extra r))"
    using assms by (auto simp: plain_def list_ex_iff list_all_iff)
  then show ?thesis
    using assms unfolding any_none_def record_values_def list_ex_append clean_def plain_def
    by (auto simp: five)
qed

section \<open>Properties of the table operations\<close>

lemma mset_dropna:
  "mset (dropna xs) = (\<Sum>f \<in># mset xs. case f of Val v \<Rightarrow> {#v#} | _ \<Rightarrow> {#})"
  by (induction xs rule: dropna.induct) simp_all

lemma mset_dropna_cong: "mset xs = mset ys \<Longrightarrow> mset (dropna xs) = mset (dropna ys)"
  by (simp add: mset_dropna)

lemma set_dropna: "set (dropna xs) = {v. Val v \<in> set xs}"
  by (induction xs rule: dropna.induct) auto

lemma set_unique [simp]: "set (unique xs) = set xs"
  by (simp add: unique_def)

lemma distinct_unique [simp]: "distinct (unique xs)"
  by (simp add: unique_def)

lemma length_unique: "length (unique xs) = card (set xs)"
  using distinct_card [of "unique xs"] by simp

lemma mset_sort_desc [simp]: "mset (sort_desc s) = mset s"
  by (simp add: sort_desc_def)

lemma set_sort_desc [simp]: "set (sort_desc s) = set s"
  by (simp add: sort_desc_def)

lemma length_sort_desc [simp]: "length (sort_desc s) = length s"
  by (simp add: sort_desc_def)

lemma sort_desc_idem: "sort_desc (sort_desc s) = sort_desc s"
  unfolding sort_desc_def by (simp add: sort_key_id_if_sorted)

lemma nlargest_value_counts: "nlargest n (value_counts col) = take n (value_counts col)"
  by (simp add: nlargest_def value_counts_def Let_def sort_desc_idem)

lemma map_fst_value_counts_mset: "mset (map fst (value_counts col)) = mset (unique (dropna col))"
proof -
  have "mset (map fst (value_counts col)) = image_mset fst (mset (value_counts col))" by simp
  also have "\<dots> = image_mset fst (mset (map (\<lambda>c. (c, count_list (dropna col) c)) (unique (dropna col))))"
    by (simp add: value_counts_def Let_def)
  also have "\<dots> = mset (unique (dropna col))"
    by (simp add: image_mset.compositionality comp_def)
  finally show ?thesis .
qed

lemma distinct_value_counts: "distinct (map fst (value_counts col))"
proof -
  have "distinct (unique (dropna col))" by simp
  then show ?thesis
    using mset_eq_imp_distinct_iff [OF map_fst_value_counts_mset [of col]] by simp
qed

lemma set_value_counts_fst: "set (map fst (value_counts col)) = set (dropna col)"
proof -
  have "set_mset (mset (map fst (value_counts col))) = set_mset (mset (unique (dropna col)))"
    by (simp only: map_fst_value_counts_mset)
  then show ?thesis by simp
qed

lemma length_value_counts: "length (value_counts col) = card (set (dropna col))"
  by (simp add: value_counts_def Let_def length_unique)

lemma snd_value_counts: "(c, n) \<in> set (value_counts col) \<Longrightarrow> n = count_list (dropna col) c"
  by (auto simp: value_counts_def Let_def)

lemma top_25_cities_eq: "top_25_cities df = take 25 (map fst (value_counts (map destination_city df)))"
  by (simp add: top_25_cities_def nlargest_value_counts take_map)

lemma distinct_top_25: "distinct (top_25_cities df)"
  by (simp add: top_25_cities_eq distinct_value_counts)

lemma set_top_25_subset: "set (top_25_cities df) \<subseteq> set (destinations df)"
proof -
  have "set (top_25_cities df) \<subseteq> set (map fst (value_counts (map destination_city df)))"
    unfolding top_25_cities_eq by (rule set_take_subset)
  then show ?thesis by (simp only: set_value_counts_fst destinations_def)
qed

lemma length_top_25: "length (top_25_cities df) = min 25 (card (set (destinations df)))"
  by (simp add: top_25_cities_eq length_value_counts destinations_def min.commute)

lemma groupby_eq:
  "groupby key df =
     map (\<lambda>k. (k, filter (\<lambda>r. key r = Val k) df)) (sorted_list_of_set (set (dropna (map key df))))"
  by (simp add: groupby_def sorted_list_of_set_sort_remdups)

lemma isin_iff: "isin f cs \<longleftrightarrow> (\<exists>c \<in> set cs. f = Val c)"
  by (cases f) auto

lemma set_destinations: "set (destinations df) = {c. \<exists>r \<in> set df. destination_city r = Val c}"
  by (force simp: destinations_def set_dropna)

lemma destinations_df_top_25: "set (destinations (df_top_25 df)) = set (top_25_cities df)"
proof -
  have "set (top_25_cities df) \<subseteq> {c. \<exists>r \<in> set df. destination_city r = Val c}"
    using set_top_25_subset [of df] by (simp only: set_destinations)
  then show ?thesis
    unfolding set_destinations df_top_25_def by (fastforce simp: isin_iff)
qed

lemma group_df_top_25:
  assumes "c \<in> set (top_25_cities df)"
  shows "filter (\<lambda>r. destination_city r = Val c) (df_top_25 df) =
         filter (\<lambda>r. destination_city r = Val c) df"
  unfolding df_top_25_def filter_filter
  by (rule filter_cong) (use assms in \<open>auto simp: isin_iff\<close>)

lemma avg_p95_eq:
  "avg_p95 df =
     map (\<lambda>c. (c, mean (group_durations df c), p95 (group_durations df c)))
       (sorted_list_of_set (set (top_25_cities df)))"
proof -
  have keys: "set (dropna (map destination_city (df_top_25 df))) = set (top_25_cities df)"
    using destinations_df_top_25 [of df] by (simp only: destinations_def)
  have "avg_p95 df =
     map (\<lambda>c. (c, mean (group_durations (df_top_25 df) c), p95 (group_durations (df_top_25 df) c)))
       (sorted_list_of_set (set (top_25_cities df)))"
    by (simp add: avg_p95_def groupby_eq keys group_durations_def comp_def)
  also have "\<dots> = map (\<lambda>c. (c, mean (group_durations df c), p95 (group_durations df c)))
       (sorted_list_of_set (set (top_25_cities df)))"
    by (rule map_cong) (simp_all add: group_durations_def group_df_top_25)
  finally show ?thesis .
qed

lemma sum_passengers_eq:
  "sum_passengers key df =
     map (\<lambda>c. (c, passengers key df c)) (sorted_list_of_set (set (dropna (map key df))))"
  by (simp add: sum_passengers_def groupby_eq passengers_def comp_def)

section \<open>The selected cities are the most frequent ones\<close>

lemma sorted_value_counts: "sorted (map (\<lambda>p. - int (snd p)) (value_counts col))"
  by (simp add: value_counts_def Let_def sort_desc_def)

lemma take_drop_counts:
  assumes "x \<in> set (take n (value_counts col))" and "y \<in> set (drop n (value_counts col))"
  shows "snd y \<le> snd x"
proof -
  let ?l = "value_counts col"
  let ?k = "\<lambda>p :: 'a \<times> nat. - int (snd p)"
  have "sorted (map ?k (take n ?l @ drop n ?l))"
    using sorted_value_counts [of col] by simp
  then have "\<forall>a \<in> set (map ?k (take n ?l)). \<forall>b \<in> set (map ?k (drop n ?l)). a \<le> b"
    unfolding map_append sorted_append by blast
  with assms have "?k x \<le> ?k y" by simp
  then show ?thesis by simp
qed

lemma top_25_most_frequent:
  assumes "c \<in> set (top_25_cities df)"
    and "c' \<in> set (destinations df)" and "c' \<notin> set (top_25_cities df)"
  shows "frequency df c' \<le> frequency df c"
proof -
  let ?l = "value_counts (map destination_city df)"
  from assms(1) obtain x where x: "x \<in> set (take 25 ?l)" "fst x = c"
    by (auto simp: top_25_cities_eq take_map)
  from assms(2) have "c' \<in> set (map fst ?l)"
    by (simp only: set_value_counts_fst destinations_def)
  then obtain y where y: "y \<in> set ?l" "fst y = c'" by auto
  have "y \<notin> set (take 25 ?l)"
    using assms(3) y(2) by (auto simp: top_25_cities_eq take_map)
  with y(1) have "y \<in> set (drop 25 ?l)"
    by (metis Un_iff append_take_drop_id set_append)
  from take_drop_counts [OF x(1) this] have le: "snd y \<le> snd x" .
  have "x \<in> set ?l" using x(1) by (rule in_set_takeD)
  then have "(c, snd x) \<in> set ?l" using x(2) by auto
  then have "snd x = frequency df c"
    unfolding frequency_def destinations_def by (rule snd_value_counts)
  moreover have "(c', snd y) \<in> set ?l" using y by auto
  then have "snd y = frequency df c'"
    unfolding frequency_def destinations_def by (rule snd_value_counts)
  ultimately show ?thesis using le by simp
qed

section \<open>The passenger sums and their maximum\<close>

lemma foldl_best_in:
  "foldl (\<lambda>best q. if snd best < snd q then q else best) p ps \<in> set (p # ps)"
  by (induction ps arbitrary: p) (simp, force)

lemma foldl_best_ge:
  "q \<in> set (p # ps) \<Longrightarrow>
     snd q \<le> (snd (foldl (\<lambda>best q. if snd best < snd q then q else best) p ps) :: int)"
proof (induction ps arbitrary: p q)
  case Nil
  then show ?case by simp
next
  case (Cons a ps)
  let ?p' = "if snd p < snd a then a else p"
  have step: "foldl (\<lambda>best q. if snd best < snd q then q else best) p (a # ps) =
              foldl (\<lambda>best q. if snd best < snd q then q else best) ?p' ps"
    by simp
  have p': "snd ?p' \<le> snd (foldl (\<lambda>best q. if snd best < snd q then q else best) ?p' ps)"
    by (rule Cons.IH) simp
  from Cons.prems consider "q = p" | "q = a" | "q \<in> set ps" by auto
  then show ?case
  proof cases
    case 1
    then show ?thesis using p' unfolding step by (simp split: if_splits)
  next
    case 2
    then show ?thesis using p' unfolding step by (simp split: if_splits)
  next
    case 3
    then have "q \<in> set (?p' # ps)" by simp
    from Cons.IH [OF this] show ?thesis unfolding step .
  qed
qed

lemma idxmax_None: "idxmax l = None \<longleftrightarrow> l = []"
  by (cases l) simp_all

lemma idxmax_Some:
  assumes "idxmax l = Some c"
  shows "\<exists>n. (c, n) \<in> set l \<and> list_all (\<lambda>q. snd q \<le> n) l"
proof (cases l)
  case Nil
  with assms show ?thesis by simp
next
  case (Cons p ps)
  let ?b = "foldl (\<lambda>best q. if snd best < snd q then q else best) p ps"
  from assms Cons have c: "c = fst ?b" by simp
  have "?b \<in> set l" unfolding Cons by (rule foldl_best_in)
  then have "(c, snd ?b) \<in> set l" by (simp add: c)
  moreover have "list_all (\<lambda>q. snd q \<le> snd ?b) l"
    unfolding list_all_iff Cons using foldl_best_ge [of _ p ps] by blast
  ultimately show ?thesis by blast
qed

lemma map_of_sum_passengers:
  "map_of (sum_passengers key df) c =
     (if c \<in> set (dropna (map key df)) then Some (passengers key df c) else None)"
proof -
  have "map_of (map (\<lambda>k. (k, passengers key df k)) ks) c =
        (if c \<in> set ks then Some (passengers key df c) else None)" for ks
    by (induction ks) simp_all
  from this [of "sorted_list_of_set (set (dropna (map key df)))"]
  show ?thesis by (simp add: sum_passengers_eq)
qed

lemma map_fst_sum_passengers:
  "map fst (sum_passengers key df) = sorted_list_of_set (set (dropna (map key df)))"
  by (simp add: sum_passengers_eq comp_def)

lemma idxmax_sum_passengers:
  assumes "idxmax (sum_passengers key df) = Some c"
  shows "c \<in> set (dropna (map key df)) \<and>
         list_all (\<lambda>q. snd q \<le> passengers key df c) (sum_passengers key df)"
proof -
  from idxmax_Some [OF assms] obtain n where
    n: "(c, n) \<in> set (sum_passengers key df)" "list_all (\<lambda>q. snd q \<le> n) (sum_passengers key df)"
    by blast
  from n(1) have "c \<in> set (dropna (map key df))" "n = passengers key df c"
    by (auto simp: sum_passengers_eq)
  with n(2) show ?thesis by simp
qed

text \<open>
  Two counts of \<open>2^62\<close> for one city: their sum wraps around to \<open>- 2^63\<close> in a column
  without a null cell, and it is \<open>2^63\<close> when another row lacks its count.
\<close>

lemma sum_wraps_in_int64_column:
  "df_arrived [(flight_to ''a'')\<lparr>num_passengers := Val 4611686018427387904\<rparr>,
               (flight_to ''a'')\<lparr>num_passengers := Val 4611686018427387904\<rparr>] =
     [(''a'', - 9223372036854775808)]"
  "df_arrived [(flight_to ''a'')\<lparr>num_passengers := Val 4611686018427387904\<rparr>,
               (flight_to ''a'')\<lparr>num_passengers := Val 4611686018427387904\<rparr>,
               (flight_to ''b'')\<lparr>num_passengers := Null\<rparr>] =
     [(''a'', 9223372036854775808), (''b'', 0)]"
  by code_simp+

section \<open>The percentile\<close>

lemma rank95_bounds: "0 \<le> rank95 n" "rank95 n \<le> of_nat (n - 1)"
  by (simp_all add: rank95_def mult_left_le_one_le)

lemma np_percentile_rank95:
  "np_percentile ds 95 =
     (if ds = [] then None
      else Some (lerp (of_int (sort ds ! nat \<lfloor>rank95 (length ds)\<rfloor>))
                  (of_int (sort ds ! min (nat \<lfloor>rank95 (length ds)\<rfloor> + 1) (length ds - 1)))
                  (rank95 (length ds) - of_nat (nat \<lfloor>rank95 (length ds)\<rfloor>))))"
  by (simp add: np_percentile_def rank95_def Let_def)

lemma interpolated_p95_rank95:
  "interpolated_p95 ds =
     (if ds = [] then 0
      else of_int (sort ds ! nat \<lfloor>rank95 (length ds)\<rfloor>) +
           (rank95 (length ds) - of_int \<lfloor>rank95 (length ds)\<rfloor>) *
           of_int (sort ds ! nat \<lceil>rank95 (length ds)\<rceil> - sort ds ! nat \<lfloor>rank95 (length ds)\<rfloor>))"
  by (simp add: interpolated_p95_def Let_def)

lemma np_percentile_95:
  assumes "ds \<noteq> []"
  shows "np_percentile ds 95 = Some (interpolated_p95 ds)"
proof -
  define r where "r = rank95 (length ds)"
  define s where "s = sort ds"
  have r0: "0 \<le> r" and rn: "r \<le> of_nat (length ds - 1)"
    unfolding r_def by (rule rank95_bounds)+
  have fl0: "0 \<le> \<lfloor>r\<rfloor>" using r0 by simp
  have prev: "of_nat (nat \<lfloor>r\<rfloor>) = (of_int \<lfloor>r\<rfloor> :: rat)" using fl0 by simp
  have ceil_le: "\<lceil>r\<rceil> \<le> int (length ds - 1)" using rn by (simp add: ceiling_le_iff)
  have lhs: "np_percentile ds 95 =
      Some (lerp (of_int (s ! nat \<lfloor>r\<rfloor>)) (of_int (s ! min (nat \<lfloor>r\<rfloor> + 1) (length ds - 1)))
        (r - of_int \<lfloor>r\<rfloor>))"
    using assms by (simp only: np_percentile_rank95 r_def s_def prev [unfolded r_def] if_False)
  have rhs: "interpolated_p95 ds =
      of_int (s ! nat \<lfloor>r\<rfloor>) + (r - of_int \<lfloor>r\<rfloor>) * of_int (s ! nat \<lceil>r\<rceil> - s ! nat \<lfloor>r\<rfloor>)"
    using assms by (simp only: interpolated_p95_rank95 r_def s_def if_False)
  show ?thesis
  proof (cases "r = of_int \<lfloor>r\<rfloor>")
    case True
    then have "r - of_int \<lfloor>r\<rfloor> = 0" by simp
    then show ?thesis by (simp add: lhs rhs lerp_def)
  next
    case False
    then have "\<lceil>r\<rceil> = \<lfloor>r\<rfloor> + 1" by (simp add: ceiling_altdef)
    then have "nat \<lceil>r\<rceil> = nat \<lfloor>r\<rfloor> + 1" using fl0 by (simp add: nat_add_distrib)
    moreover have "nat \<lceil>r\<rceil> \<le> length ds - 1" using ceil_le by simp
    ultimately have "min (nat \<lfloor>r\<rfloor> + 1) (length ds - 1) = nat \<lceil>r\<rceil>" by simp
    then show ?thesis by (simp add: lhs rhs lerp_def algebra_simps)
  qed
qed

lemma p95_eq: "p95 x = Some (interpolated_p95 (dropna x))"
  by (cases "dropna x = []") (simp_all add: p95_def np_percentile_95, simp add: interpolated_p95_def)

section \<open>Aggregates of a table do not depend on the order of its rows\<close>

lemma sort_mset_cong: "mset xs = mset ys \<Longrightarrow> sort xs = sort (ys :: int list)"
  by (rule properties_for_sort) simp_all

lemma mean_mset_cong:
  assumes "mset x = mset y"
  shows "mean x = mean y"
proof -
  have m: "mset (dropna x) = mset (dropna y)" using assms by (rule mset_dropna_cong)
  have "sum_mset (mset (dropna x)) = sum_mset (mset (dropna y))"
    by (simp only: m)
  then have "sum_list (dropna x) = sum_list (dropna y)"
    by (simp only: sum_mset_sum_list)
  moreover have l: "length (dropna x) = length (dropna y)"
    using m by (rule mset_eq_length)
  moreover have "dropna x = [] \<longleftrightarrow> dropna y = []"
    using l by (simp only: length_0_conv [symmetric])
  ultimately show ?thesis by (simp add: mean_def Let_def)
qed

lemma p95_mset_cong:
  assumes "mset x = mset y"
  shows "p95 x = p95 y"
proof -
  have m: "mset (dropna x) = mset (dropna y)" using assms by (rule mset_dropna_cong)
  have "sort (dropna x) = sort (dropna y)" using m by (rule sort_mset_cong)
  moreover have l: "length (dropna x) = length (dropna y)" using m by (rule mset_eq_length)
  moreover have "dropna x = [] \<longleftrightarrow> dropna y = []"
    using l by (simp only: length_0_conv [symmetric])
  ultimately show ?thesis by (simp add: p95_eq interpolated_p95_rank95)
qed

lemma durations_mset_cong: "mset df = mset df' \<Longrightarrow> mset (group_durations df c) = mset (group_durations df' c)"
  by (simp add: group_durations_def)

lemma int64_column_mset_cong: "mset df = mset df' \<Longrightarrow> int64_column df = int64_column df'"
  using mset_eq_setD [of df df'] by (simp add: int64_column_def list_all_iff)

lemma sum_cells_mset_cong:
  assumes "mset v = mset w"
  shows "sum_cells b v = sum_cells b w"
proof -
  have "sum_mset (mset v) = sum_mset (mset w)"
    by (simp only: assms)
  then have 1: "sum_list v = sum_list w"
    by (simp only: sum_mset_sum_list)
  have "sum_mset (mset (map sint v)) = sum_mset (mset (map sint w))"
    by (simp only: mset_map assms)
  then have 2: "sum_list (map sint v) = sum_list (map sint w)"
    by (simp only: sum_mset_sum_list)
  show ?thesis by (simp add: sum_cells_def 1 2)
qed

lemma passengers_mset_cong:
  assumes "mset df = mset df'"
  shows "passengers key df c = passengers key df' c"
proof -
  have "mset (map num_passengers (filter (\<lambda>r. key r = Val c) df)) =
        mset (map num_passengers (filter (\<lambda>r. key r = Val c) df'))"
    using assms by simp
  then have "mset (dropna (map num_passengers (filter (\<lambda>r. key r = Val c) df))) =
        mset (dropna (map num_passengers (filter (\<lambda>r. key r = Val c) df')))"
    by (rule mset_dropna_cong)
  then show ?thesis
    unfolding passengers_def int64_column_mset_cong [OF assms] by (rule sum_cells_mset_cong)
qed

lemma keys_mset_cong:
  assumes "mset df = mset df'"
  shows "set (dropna (map key df)) = set (dropna (map key df'))"
proof -
  have "mset (map key df) = mset (map key df')" using assms by simp
  then have "mset (dropna (map key df)) = mset (dropna (map key df'))" by (rule mset_dropna_cong)
  then show ?thesis by (rule mset_eq_setD)
qed

lemma frequency_mset_cong:
  assumes "mset df = mset df'"
  shows "frequency df c = frequency df' c"
proof -
  have "mset (map destination_city df) = mset (map destination_city df')" using assms by simp
  then have "mset (destinations df) = mset (destinations df')"
    unfolding destinations_def by (rule mset_dropna_cong)
  then show ?thesis unfolding frequency_def by (rule mset_eq_length_filter)
qed

lemma sum_passengers_mset_cong:
  assumes "mset df = mset df'"
  shows "sum_passengers key df = sum_passengers key df'"
  unfolding sum_passengers_eq keys_mset_cong [OF assms, of key]
  by (rule map_cong) (simp_all add: passengers_mset_cong [OF assms])

lemma has_column_mset_cong:
  assumes "mset df = mset df'"
  shows "has_column col df = has_column col df'"
  using mset_eq_setD [OF assms] by (simp add: has_column_def list_ex_iff)

text \<open>
  When no city outside the selection is as frequent as a city inside it, the selection
  is the same for every order of the rows.
\<close>

lemma top_25_set_mset_cong:
  assumes m: "mset df = mset df'"
    and strict: "\<And>c c'. c \<in> set (top_25_cities df) \<Longrightarrow> c' \<in> set (destinations df) \<Longrightarrow>
       c' \<notin> set (top_25_cities df) \<Longrightarrow> frequency df c' < frequency df c"
  shows "set (top_25_cities df') = set (top_25_cities df)"
proof (rule ccontr)
  let ?T = "set (top_25_cities df)" and ?T' = "set (top_25_cities df')"
  have D: "set (destinations df') = set (destinations df)"
    unfolding destinations_def using keys_mset_cong [OF m, of destination_city] by simp
  have "card ?T = length (top_25_cities df)" by (rule distinct_card) (rule distinct_top_25)
  moreover have "card ?T' = length (top_25_cities df')" by (rule distinct_card) (rule distinct_top_25)
  ultimately have card: "card ?T' = card ?T" by (simp add: length_top_25 D)
  assume ne: "?T' \<noteq> ?T"
  have "\<not> ?T \<subseteq> ?T'"
    using ne card card_subset_eq [of ?T' ?T] by auto
  then obtain x where x: "x \<in> ?T" "x \<notin> ?T'" by blast
  have "\<not> ?T' \<subseteq> ?T"
    using ne card card_subset_eq [of ?T ?T'] by auto
  then obtain y where y: "y \<in> ?T'" "y \<notin> ?T" by blast
  have xD: "x \<in> set (destinations df')" using x(1) set_top_25_subset [of df] D by blast
  have yD: "y \<in> set (destinations df)" using y(1) set_top_25_subset [of df'] D by blast
  have "frequency df y < frequency df x" using x(1) yD y(2) by (rule strict)
  moreover have "frequency df' x \<le> frequency df' y" using y(1) xD x(2) by (rule top_25_most_frequent)
  ultimately show False by (simp add: frequency_mset_cong [OF m])
qed

lemma avg_p95_mset_cong:
  assumes m: "mset df = mset df'"
    and strict: "\<And>c c'. c \<in> set (top_25_cities df) \<Longrightarrow> c' \<in> set (destinations df) \<Longrightarrow>
       c' \<notin> set (top_25_cities df) \<Longrightarrow> frequency df c' < frequency df c"
  shows "avg_p95 df' = avg_p95 df"
proof -
  have T: "set (top_25_cities df') = set (top_25_cities df)"
    using m strict by (rule top_25_set_mset_cong)
  have "mean (group_durations df' c) = mean (group_durations df c)" for c
    by (rule mean_mset_cong [OF durations_mset_cong [OF m, symmetric]])
  moreover have "p95 (group_durations df' c) = p95 (group_durations df c)" for c
    by (rule p95_mset_cong [OF durations_mset_cong [OF m, symmetric]])
  ultimately show ?thesis
    by (simp only: avg_p95_eq T)
qed

lemma analyse_mset_cong:
  assumes m: "mset (all_records s) = mset (all_records s')"
    and "total_records s' = total_records s" and "dirty_records s' = dirty_records s"
    and strict: "\<And>c c'. c \<in> set (top_25_cities (all_records s)) \<Longrightarrow> c' \<in> set (destinations (all_records s)) \<Longrightarrow>
       c' \<notin> set (top_25_cities (all_records s)) \<Longrightarrow> frequency (all_records s) c' < frequency (all_records s) c"
  shows "analyse s' = analyse s"
proof -
  have a: "avg_p95 (all_records s') = avg_p95 (all_records s)"
    using m strict by (rule avg_p95_mset_cong)
  have b: "sum_passengers key (all_records s') = sum_passengers key (all_records s)" for key
    by (rule sum_passengers_mset_cong [OF m [symmetric]])
  have c: "has_column col (all_records s') = has_column col (all_records s)"
    for col :: "flight_record \<Rightarrow> 'b field"
    by (rule has_column_mset_cong [OF m [symmetric]])
  show ?thesis
    unfolding analyse_def Let_def df_arrived_def df_left_def
    by (simp only: assms(2,3) a b c)
qed

lemma loaded_mset_cong: "mset files = mset files' \<Longrightarrow> mset (loaded files) = mset (loaded files')"
proof -
  assume m: "mset files = mset files'"
  have "mset (loaded fs) = sum_mset (image_mset (\<lambda>f. mset (records_of f)) (mset fs))" for fs
    unfolding loaded_def mset_concat
    by (simp only: sum_mset_sum_list [symmetric] mset_map image_mset.compositionality comp_def map_map)
  then show ?thesis by (simp only: m)
qed

section \<open>Dirty records and the aggregates\<close>

text \<open>
  C1. The claim is that a dirty record adds to the dirty count only. In the code the
  record below, whose date is null and whose other fields have values, is counted as
  dirty and is still loaded into the table: its destination has a row in the duration
  table with its duration as mean and percentile, and its five passengers are the
  arrival sum of its destination and the departure sum of its origin.
\<close>

theorem dirty_record_feeds_aggregates:
  "process_files (Some [Records [\<lparr>date = Null, origin_city = Val ''city_1'',
        destination_city = Val ''city_2'', flight_duration_secs = Val 3600,
        num_passengers = Val 5, extra = []\<rparr>]]) =
   Inr \<lparr>report_total_records = 1, report_dirty_records = 1,
        report_avg_p95 = [(''city_2'', Some 3600, Some 3600)],
        report_max_arrived = (''city_2'', 5), report_max_left = (''city_1'', 5)\<rparr>"
  by code_simp

section \<open>The table of the 25 most frequent destinations\<close>

text \<open>
  C2, as the claim states it: the rows of the table would follow the ranking, the most
  frequent destination first. With two flights to \<open>b\<close> and one to \<open>a\<close> the table lists
  \<open>a\<close> before \<open>b\<close>.
\<close>

theorem table_rows_not_in_frequency_order:
  "process_files (Some [Records (map flight_to [''b'', ''b'', ''a''])]) =
     Inr \<lparr>report_total_records = 3, report_dirty_records = 0,
          report_avg_p95 = [(''a'', Some 3600, Some 3600), (''b'', Some 3600, Some 3600)],
          report_max_arrived = (''b'', 200), report_max_left = (''hub'', 300)\<rparr> \<and>
   frequency (map flight_to [''b'', ''b'', ''a'']) ''a'' = 1 \<and>
   frequency (map flight_to [''b'', ''b'', ''a'']) ''b'' = 2"
  by code_simp

text \<open>
  C2, amended: the table has exactly min(25, number of distinct non-null destination
  cities of the loaded records) rows; its cities are the selected ones, all of them
  destinations, and no destination left out is more frequent than a selected one; the
  rows are in strictly ascending order of the city identifier, which is the order of the
  grouping and not the order of the ranking.
\<close>

theorem top_25_table_rows:
  "length (avg_p95 df) = min 25 (card (set (destinations df))) \<and>
   sorted_wrt (<) (map fst (avg_p95 df)) \<and>
   set (map fst (avg_p95 df)) = set (top_25_cities df) \<and>
   set (top_25_cities df) \<subseteq> set (destinations df) \<and>
   (\<forall>c \<in> set (top_25_cities df). \<forall>c' \<in> set (destinations df) - set (top_25_cities df).
      frequency df c' \<le> frequency df c)"
proof -
  have keys: "map fst (avg_p95 df) = sorted_list_of_set (set (top_25_cities df))"
    by (simp add: avg_p95_eq comp_def)
  have "length (avg_p95 df) = length (map fst (avg_p95 df))" by simp
  also have "\<dots> = card (set (top_25_cities df))" by (simp only: keys) simp
  also have "\<dots> = length (top_25_cities df)" by (rule distinct_card) (rule distinct_top_25)
  finally have len: "length (avg_p95 df) = min 25 (card (set (destinations df)))"
    by (simp only: length_top_25)
  have srt: "sorted_wrt (<) (map fst (avg_p95 df))" by (simp only: keys) simp
  have st: "set (map fst (avg_p95 df)) = set (top_25_cities df)" by (simp only: keys) simp
  show ?thesis
    using len srt st set_top_25_subset [of df] top_25_most_frequent [of _ df] by blast
qed

theorem top_25_table_rows_witness:
  "''a'' \<in> set (top_25_cities flights_27) \<and>
   ''zz'' \<in> set (destinations flights_27) - set (top_25_cities flights_27) \<and>
   frequency flights_27 ''zz'' \<le> frequency flights_27 ''a'' \<and>
   length (avg_p95 flights_27) = 25"
proof -
  have a: "''a'' \<in> set (top_25_cities flights_27)"
    by code_simp
  have z: "''zz'' \<in> set (destinations flights_27) - set (top_25_cities flights_27)"
    by code_simp
  have n: "min 25 (card (set (destinations flights_27))) = 25"
    by code_simp
  from top_25_table_rows [of flights_27] a z n show ?thesis by simp
qed

section \<open>The 95th percentile of a selected city\<close>

text \<open>
  C3. The claim is that the percentile reported for a city is the interpolated value at
  rank \<open>0.95 * (n - 1)\<close> of the sorted durations of its clean records, so that a city
  with a single clean record of duration \<open>d\<close> reports \<open>d\<close>. In the code the city
  below has one clean record, of duration 100, and one record whose date is null, of
  duration 1000: the second is counted as dirty and its duration is still in the group
  of the city, so the program reports the mean 550 and the percentile 955, where the
  duration collection of the city gives 100.
\<close>

theorem dirty_duration_feeds_p95:
  "process_files (Some [Records [
       \<lparr>date = Val ''2024-11-01'', origin_city = Val ''city_1'', destination_city = Val ''city_2'',
        flight_duration_secs = Val 100, num_passengers = Val 50, extra = []\<rparr>,
       \<lparr>date = Null, origin_city = Val ''city_1'', destination_city = Val ''city_2'',
        flight_duration_secs = Val 1000, num_passengers = Val 70, extra = []\<rparr>]]) =
     Inr \<lparr>report_total_records = 2, report_dirty_records = 1,
          report_avg_p95 = [(''city_2'', Some 550, Some 955)],
          report_max_arrived = (''city_2'', 120), report_max_left = (''city_1'', 120)\<rparr> \<and>
   interpolated_p95 (clean_durations [
       \<lparr>date = Val ''2024-11-01'', origin_city = Val ''city_1'', destination_city = Val ''city_2'',
        flight_duration_secs = Val 100, num_passengers = Val 50, extra = []\<rparr>,
       \<lparr>date = Null, origin_city = Val ''city_1'', destination_city = Val ''city_2'',
        flight_duration_secs = Val 1000, num_passengers = Val 70, extra = []\<rparr>] ''city_2'') = 100"
  by code_simp

text \<open>
  On a table whose rows are all clean the percentile of every row is the interpolated
  value of the claim: the computation of the percentile is the one the claim describes,
  and the difference above comes from the dirty rows in the table.
\<close>

lemma p95_of_clean_table:
  assumes "list_all clean df" and "(c, m, p) \<in> set (avg_p95 df)"
  shows "p = Some (interpolated_p95 (clean_durations df c))"
proof -
  have "filter (\<lambda>r. clean r \<and> destination_city r = Val c) df =
        filter (\<lambda>r. destination_city r = Val c) df"
    by (rule filter_cong) (use assms(1) in \<open>auto simp: list_all_iff\<close>)
  then have "clean_durations df c = dropna (group_durations df c)"
    by (simp add: clean_durations_def group_durations_def)
  moreover from assms(2) have "p = p95 (group_durations df c)"
    by (auto simp: avg_p95_eq)
  ultimately show ?thesis by (simp add: p95_eq)
qed

lemma p95_examples:
  "p95 [Val d] = Some (of_int d)"
  "p95 (map Val [100, 200, 300, 400, 500, 600, 700, 800, 900, 1000]) =
     Some (lerp 900 1000 (rank95 10 - 8))"
  "rank95 10 = 855 / 100"
  "p95 [Null, Missing] = Some 0"
proof -
  show "p95 [Val d] = Some (of_int d)"
    by (simp add: p95_def np_percentile_def lerp_def)
  show "p95 (map Val [100, 200, 300, 400, 500, 600, 700, 800, 900, 1000]) =
     Some (lerp 900 1000 (rank95 10 - 8))"
    by code_simp
  show "rank95 10 = 855 / 100"
    by (simp add: rank95_def)
  show "p95 [Null, Missing] = Some 0"
    by (simp add: p95_def)
qed

section \<open>A file that is not a JSON array\<close>

text \<open>
  C4, as the claim states it: with a malformed file among valid ones the run would
  complete with a report. Here the second of three files holds a JSON object with two
  members, or text that is not JSON, and the run prints the line of the generic handler
  and no report.
\<close>

theorem malformed_file_no_report:
  "main (Inr (Some [Records [flight_to ''city_2''], Sized 2, Records []])) = (Exception_line, 0) \<and>
   main (Inr (Some [Records [flight_to ''city_2''], Not_json, Records []])) = (Exception_line, 0)"
  by code_simp

text \<open>
  C4, amended: when some file of the corpus is not JSON, or is a JSON number, truth
  value or null, or a JSON object or string that is not empty, \<^verbatim>\<open>process_files\<close>
  raises an exception whatever the other files hold; \<^verbatim>\<open>main\<close> catches it in its generic
  handler, prints that handler's line instead of a report, and the script ends with
  status 0.
\<close>

theorem malformed_file_aborts_run:
  assumes "f \<in> set files" and "raises f = Some e"
  shows "(\<exists>e'. process_files (Some files) = Inl e') \<and>
         main (Inr (Some files)) = (Exception_line, 0)"
proof -
  from assms have "first_raised files \<noteq> None"
    by (auto simp: first_raised_None)
  then obtain e' where e': "first_raised files = Some e'" by blast
  then have p: "process_files (Some files) = Inl e'"
    by (simp add: process_files_eq os_walk_def)
  moreover have "main (Inr (Some files)) = (Exception_line, 0)"
    using first_raised_handler [OF e'] by (simp add: main_def p)
  ultimately show ?thesis by blast
qed

theorem malformed_file_aborts_run_witness:
  "Unsized \<in> set [Records [], Unsized] \<and> raises Unsized = Some TypeError \<and>
   (\<exists>e'. process_files (Some [Records [], Unsized]) = Inl e') \<and>
   main (Inr (Some [Records [], Unsized])) = (Exception_line, 0)"
  using malformed_file_aborts_run [of Unsized "[Records [], Unsized]" TypeError] by simp

section \<open>Classification of a record\<close>

text \<open>
  C5, as the claim states it: a record that lacks a key would be classified as the
  record that has \<^verbatim>\<open>None\<close> under that key. The record without the key
  \<^verbatim>\<open>num_passengers\<close> is not counted as dirty; with \<^verbatim>\<open>None\<close> under that key it is.
\<close>

theorem missing_key_not_dirty:
  "\<not> any_none \<lparr>date = Val ''2024-11-01'', origin_city = Val ''city_1'',
        destination_city = Val ''city_2'', flight_duration_secs = Val 3600,
        num_passengers = Missing, extra = []\<rparr> \<and>
   any_none \<lparr>date = Val ''2024-11-01'', origin_city = Val ''city_1'',
        destination_city = Val ''city_2'', flight_duration_secs = Val 3600,
        num_passengers = Null, extra = []\<rparr>"
  by (simp add: any_none_def record_values_def)

text \<open>
  C5, amended: a record is counted as dirty exactly when at least one value in it is
  null, under one of the five named keys, whichever it is, or under any other key. A
  record with all five fields present and non-null is not counted as dirty unless
  another key of it holds null, and a key that is absent does not make a record dirty.
\<close>

theorem dirty_iff_explicit_null:
  "(any_none r \<longleftrightarrow>
      date r = Null \<or> origin_city r = Null \<or> destination_city r = Null \<or>
      flight_duration_secs r = Null \<or> num_passengers r = Null \<or>
      list_ex snd (extra r)) \<and>
   count_dirty [r] d =
     (if date r = Null \<or> origin_city r = Null \<or> destination_city r = Null \<or>
         flight_duration_secs r = Null \<or> num_passengers r = Null \<or>
         list_ex snd (extra r)
      then d + 1 else d)"
proof -
  have five: "list_ex (\<lambda>b. b) (is_none_values f) \<longleftrightarrow> f = Null" for f :: "'a field"
    by (cases f) simp_all
  have others: "list_ex (\<lambda>b. b) (map snd (extra r)) \<longleftrightarrow> list_ex snd (extra r)"
    by (simp add: list_ex_iff)
  have "any_none r \<longleftrightarrow>
      date r = Null \<or> origin_city r = Null \<or> destination_city r = Null \<or>
      flight_duration_secs r = Null \<or> num_passengers r = Null \<or> list_ex snd (extra r)"
    unfolding any_none_def record_values_def list_ex_append five others by blast
  then show ?thesis by simp
qed

section \<open>The record counts\<close>

text \<open>
  C6, as the claim states it: the total would be the dirty count plus the number of
  clean records, those with all five fields present and non-null. Of the two records
  below the second lacks the key \<^verbatim>\<open>num_passengers\<close>: it is not counted as dirty and it
  is not clean, so the total is 2 while the dirty count is 0 and one record is clean.
\<close>

theorem record_without_key_in_neither_count:
  "process_files (Some [Records [
       \<lparr>date = Val ''2024-11-01'', origin_city = Val ''city_1'', destination_city = Val ''city_2'',
        flight_duration_secs = Val 3600, num_passengers = Val 50, extra = []\<rparr>,
       \<lparr>date = Val ''2024-11-01'', origin_city = Val ''city_2'', destination_city = Val ''city_1'',
        flight_duration_secs = Val 3700, num_passengers = Missing, extra = []\<rparr>]]) =
     Inr \<lparr>report_total_records = 2, report_dirty_records = 0,
          report_avg_p95 = [(''city_1'', Some 3700, Some 3700), (''city_2'', Some 3600, Some 3600)],
          report_max_arrived = (''city_2'', 50), report_max_left = (''city_1'', 50)\<rparr> \<and>
   length (filter clean [
       \<lparr>date = Val ''2024-11-01'', origin_city = Val ''city_1'', destination_city = Val ''city_2'',
        flight_duration_secs = Val 3600, num_passengers = Val 50, extra = []\<rparr>,
       \<lparr>date = Val ''2024-11-01'', origin_city = Val ''city_2'', destination_city = Val ''city_1'',
        flight_duration_secs = Val 3700, num_passengers = Missing, extra = []\<rparr>]) = 1"
  by code_simp

text \<open>
  C6, amended: whenever a report is produced, its total is its dirty count plus the
  number of loaded records that hold no null value; when every loaded record is plain,
  with the five keys and no null under another key, these are the clean records, and the
  total is the dirty count plus the number of clean records.
\<close>

theorem total_is_dirty_plus_clean:
  assumes "process_files fs = Inr rep"
  shows "report_total_records rep =
           report_dirty_records rep +
           length (filter (\<lambda>r. \<not> any_none r) (loaded (os_walk fs))) \<and>
         (list_all plain (loaded (os_walk fs)) \<longrightarrow>
            report_total_records rep =
              report_dirty_records rep + length (filter clean (loaded (os_walk fs))))"
proof -
  let ?rs = "loaded (os_walk fs)"
  from assms have "analyse \<lparr>total_records = length ?rs,
      dirty_records = length (filter any_none ?rs), all_records = ?rs\<rparr> = Inr rep"
    by (simp add: process_files_eq split: option.splits)
  from analyse_counts [OF this]
  have "report_total_records rep = length ?rs"
    and "report_dirty_records rep = length (filter any_none ?rs)"
    by simp_all
  then have total: "report_total_records rep =
      report_dirty_records rep + length (filter (\<lambda>r. \<not> any_none r) ?rs)"
    using sum_length_filter_compl [of any_none ?rs] by simp
  have "filter (\<lambda>r. \<not> any_none r) ?rs = filter clean ?rs" if "list_all plain ?rs"
    by (rule filter_cong) (use that in \<open>auto simp: list_all_iff plain_not_dirty_iff_clean\<close>)
  with total show ?thesis by simp
qed

theorem total_is_dirty_plus_clean_witness:
  "process_files (Some [Records [flight_to ''city_2'',
       (flight_to ''city_1'')\<lparr>flight_duration_secs := Null\<rparr>]]) =
     Inr \<lparr>report_total_records = 2, report_dirty_records = 1,
          report_avg_p95 = [(''city_1'', None, Some 0), (''city_2'', Some 3600, Some 3600)],
          report_max_arrived = (''city_1'', 100), report_max_left = (''hub'', 200)\<rparr> \<and>
   list_all plain (loaded (os_walk (Some [Records [flight_to ''city_2'',
       (flight_to ''city_1'')\<lparr>flight_duration_secs := Null\<rparr>]]))) \<and>
   (2::nat) = 1 + length (filter clean (loaded (os_walk (Some [Records [flight_to ''city_2'',
       (flight_to ''city_1'')\<lparr>flight_duration_secs := Null\<rparr>]]))))"
proof -
  let ?fs = "Some [Records [flight_to ''city_2'',
       (flight_to ''city_1'')\<lparr>flight_duration_secs := Null\<rparr>]]"
  let ?rep = "\<lparr>report_total_records = 2, report_dirty_records = 1,
          report_avg_p95 = [(''city_1'', None, Some 0), (''city_2'', Some 3600, Some 3600)],
          report_max_arrived = (''city_1'', 100), report_max_left = (''hub'', 200)\<rparr>"
  have h: "process_files ?fs = Inr ?rep" by code_simp
  have p: "list_all plain (loaded (os_walk ?fs))" by code_simp
  from total_is_dirty_plus_clean [OF h] p show ?thesis using h by simp
qed

section \<open>The passenger sums of the cities\<close>

text \<open>
  C7, as the claim states it: every city that occurs as origin or as destination would
  have an entry in both sum tables. After one flight from \<open>hub\<close> to \<open>city_2\<close> the
  arrival table has no entry for \<open>hub\<close> and the departure table none for \<open>city_2\<close>.
\<close>

theorem origin_only_city_has_no_arrival_entry:
  "df_arrived [flight_to ''city_2''] = [(''city_2'', 100)] \<and>
   map_of (df_arrived [flight_to ''city_2'']) ''hub'' = None \<and>
   df_left [flight_to ''city_2''] = [(''hub'', 100)] \<and>
   map_of (df_left [flight_to ''city_2'']) ''city_2'' = None"
  by code_simp

text \<open>
  C7, amended: the arrival table has one entry for each city that is the non-null
  destination of a loaded record, in ascending order of the city, and the departure
  table one for each city that is a non-null origin; a city that occurs only on the
  other side has no entry. The entry of a city is the sum of the non-null passenger
  counts of its records in the arithmetic of the column, which wraps around in 64 bits
  when no loaded record lacks a passenger count, and it is 0 when the city has no
  count. The city selected as maximum is a city of the table whose entry no entry
  exceeds, and the selection fails on an empty table.
\<close>

theorem passenger_tables_entries:
  "map fst (df_arrived df) = sorted_list_of_set (set (dropna (map destination_city df))) \<and>
   map fst (df_left df) = sorted_list_of_set (set (dropna (map origin_city df))) \<and>
   map_of (df_arrived df) c =
     (if c \<in> set (dropna (map destination_city df))
      then Some (passengers destination_city df c) else None) \<and>
   map_of (df_left df) c =
     (if c \<in> set (dropna (map origin_city df))
      then Some (passengers origin_city df c) else None) \<and>
   (case idxmax (df_arrived df) of
      None \<Rightarrow> dropna (map destination_city df) = []
    | Some a \<Rightarrow> a \<in> set (dropna (map destination_city df)) \<and>
        list_all (\<lambda>q. snd q \<le> passengers destination_city df a) (df_arrived df)) \<and>
   (case idxmax (df_left df) of
      None \<Rightarrow> dropna (map origin_city df) = []
    | Some l \<Rightarrow> l \<in> set (dropna (map origin_city df)) \<and>
        list_all (\<lambda>q. snd q \<le> passengers origin_city df l) (df_left df))"
proof -
  have none: "idxmax (sum_passengers key df) = None \<Longrightarrow> dropna (map key df) = []" for key
    by (simp add: idxmax_None sum_passengers_eq)
  show ?thesis
    unfolding df_arrived_def df_left_def
    by (auto simp: map_fst_sum_passengers map_of_sum_passengers none
        dest: idxmax_sum_passengers split: option.split)
qed

section \<open>The order in which the files are processed\<close>

text \<open>
  C8, as the claim states it: every aggregate would be the same for every order of the
  files. Twenty-six destinations have one flight each, \<open>z\<close> in a file of its own. When
  that file is read first, \<open>z\<close> is among the 25 selected cities; when it is read last,
  it is not, and the two reports differ.
\<close>

theorem file_order_changes_top_25:
  "mset [Records (map flight_to a_to_y), Records [flight_to ''z'']] =
     mset [Records [flight_to ''z''], Records (map flight_to a_to_y)] \<and>
   ''z'' \<in> set (map fst (avg_p95 (loaded [Records [flight_to ''z''], Records (map flight_to a_to_y)]))) \<and>
   ''z'' \<notin> set (map fst (avg_p95 (loaded [Records (map flight_to a_to_y), Records [flight_to ''z'']]))) \<and>
   main (Inr (Some [Records (map flight_to a_to_y), Records [flight_to ''z'']])) \<noteq>
     main (Inr (Some [Records [flight_to ''z''], Records (map flight_to a_to_y)]))"
proof -
  have "mset [Records (map flight_to a_to_y), Records [flight_to ''z'']] =
     mset [Records [flight_to ''z''], Records (map flight_to a_to_y)]"
    by simp
  moreover have "''z'' \<in> set (map fst (avg_p95 (loaded [Records [flight_to ''z''], Records (map flight_to a_to_y)])))"
    by code_simp
  moreover have "''z'' \<notin> set (map fst (avg_p95 (loaded [Records (map flight_to a_to_y), Records [flight_to ''z'']])))"
    by code_simp
  moreover have "main (Inr (Some [Records (map flight_to a_to_y), Records [flight_to ''z'']])) \<noteq>
     main (Inr (Some [Records [flight_to ''z''], Records (map flight_to a_to_y)]))"
    by code_simp
  ultimately show ?thesis by blast
qed

text \<open>
  C8, amended: what the run prints, the report with all its aggregates or the line of
  the generic handler, is the same for every order of the files provided that the
  selection of the 25 cities is not decided among equally frequent ones: every
  destination left out of the selection is strictly less frequent than every selected
  one (which holds in particular with at most 25 destinations).
\<close>

theorem file_order_invariance:
  assumes perm: "mset files' = mset files"
    and strict: "\<forall>c \<in> set (top_25_cities (loaded files)).
       \<forall>c' \<in> set (destinations (loaded files)) - set (top_25_cities (loaded files)).
         frequency (loaded files) c' < frequency (loaded files) c"
  shows "main (Inr (Some files')) = main (Inr (Some files))"
proof (cases "first_raised files")
  case None
  have m: "mset (loaded files) = mset (loaded files')"
    by (rule loaded_mset_cong) (simp only: perm)
  have same: "first_raised files' = None \<longleftrightarrow> first_raised files = None"
    by (simp only: first_raised_None mset_eq_setD [OF perm])
  have none': "first_raised files' = None"
    using None same by simp
  have len: "length (loaded files') = length (loaded files)"
    by (rule mset_eq_length) (simp only: m)
  have "mset (filter any_none (loaded files')) = mset (filter any_none (loaded files))"
    by (simp only: mset_filter m)
  then have dirty: "length (filter any_none (loaded files')) = length (filter any_none (loaded files))"
    by (rule mset_eq_length)
  let ?s = "\<lparr>total_records = length (loaded files),
      dirty_records = length (filter any_none (loaded files)), all_records = loaded files\<rparr>"
  let ?s' = "\<lparr>total_records = length (loaded files'),
      dirty_records = length (filter any_none (loaded files')), all_records = loaded files'\<rparr>"
  have "analyse ?s' = analyse ?s"
  proof (rule analyse_mset_cong)
    show "mset (all_records ?s) = mset (all_records ?s')" using m by simp
    show "total_records ?s' = total_records ?s" using len by simp
    show "dirty_records ?s' = dirty_records ?s" using dirty by simp
    show "frequency (all_records ?s) c' < frequency (all_records ?s) c"
      if "c \<in> set (top_25_cities (all_records ?s))" "c' \<in> set (destinations (all_records ?s))"
        "c' \<notin> set (top_25_cities (all_records ?s))" for c c'
      using that strict by simp
  qed
  then have "process_files (Some files') = process_files (Some files)"
    by (simp add: process_files_eq os_walk_def None none')
  then show ?thesis by (simp add: main_def)
next
  case (Some e)
  have "first_raised files' = None \<longleftrightarrow> first_raised files = None"
    by (simp only: first_raised_None mset_eq_setD [OF perm])
  then have "first_raised files' \<noteq> None"
    using Some by simp
  then obtain e' where e': "first_raised files' = Some e'" by blast
  show ?thesis
    using first_raised_handler [OF Some] first_raised_handler [OF e']
    by (simp add: main_def process_files_eq os_walk_def Some e')
qed

theorem file_order_invariance_witness:
  "mset [file_a_to_y, file_a_to_z] = mset [file_a_to_z, file_a_to_y] \<and>
   main (Inr (Some [file_a_to_y, file_a_to_z])) = main (Inr (Some [file_a_to_z, file_a_to_y]))"
proof -
  have perm: "mset [file_a_to_y, file_a_to_z] = mset [file_a_to_z, file_a_to_y]"
    by simp
  have strict: "\<forall>c \<in> set (top_25_cities (loaded [file_a_to_z, file_a_to_y])).
       \<forall>c' \<in> set (destinations (loaded [file_a_to_z, file_a_to_y])) - set (top_25_cities (loaded [file_a_to_z, file_a_to_y])).
         frequency (loaded [file_a_to_z, file_a_to_y]) c' < frequency (loaded [file_a_to_z, file_a_to_y]) c"
    by code_simp
  from file_order_invariance [OF perm strict] perm show ?thesis by simp
qed

section \<open>A root directory that does not exist\<close>

text \<open>
  C9, as the claim states it: a missing root would raise the not-found error and the
  program would exit with a non-zero status. The exception is another one and the
  status is 0.
\<close>

theorem missing_root_not_reported_as_such:
  "process_files None \<noteq> Inl FileNotFoundError \<and> snd (main (Inr None)) = 0"
  by code_simp

text \<open>
  C9, amended: when the root directory does not exist the walk yields no file, as for
  an empty directory; the first column access on the empty table raises
  \<^verbatim>\<open>KeyError\<close>, which \<^verbatim>\<open>main\<close> catches in its generic handler: it prints that handler's
  line, no report, and the script ends with status 0.
\<close>

theorem missing_root_key_error:
  "process_files None = Inl KeyError \<and> main (Inr None) = (Exception_line, 0) \<and>
   process_files (Some []) = process_files None"
  by (simp add: process_files_eq os_walk_def main_def loaded_def analyse_def has_column_def)

section \<open>Null injection in the generator\<close>

text \<open>
  C10. A generated record has all five keys, and the number of its null values is 1
  when the uniform draw is below \<^verbatim>\<open>prob_null\<close> = 0.001 and 0 otherwise: never two or
  more.
\<close>

theorem generated_record_at_most_one_null:
  "length (record_values (generate_flight_record today origin destination secs n u k)) = 5 \<and>
   length (filter (\<lambda>b. b)
     (record_values (generate_flight_record today origin destination secs n u k))) =
     (if u < 1 / 1000 then 1 else 0)"
  by (cases k) (simp_all add: generate_flight_record_def record_values_def prob_null_def)

end
